theory Spec2Isabelle
  imports Complex_Main
begin

section \<open>The 4x4 grid world\<close>

text \<open>
  The notebook fixes a Markov decision process on a 4x4 grid. A state is a Python
  \<open>int\<close> (class \<open>State(int)\<close>, built from a row and a column as \<open>row * 4 + col\<close>);
  Python integers are unbounded, so states, rows and columns are of type \<open>int\<close> and
  \<open>divmod\<close> is floor division, which is what \<open>div\<close> and \<open>mod\<close> are on \<open>int\<close>.
\<close>

type_synonym state = int

definition State :: "int \<Rightarrow> int \<Rightarrow> state" where
  "State row col = row * 4 + col"

definition reward :: "state \<Rightarrow> int" where
  "reward s = (if s = 0 \<or> s = 15 then 0 else - 1)"

definition position :: "state \<Rightarrow> int \<times> int" where
  "position s = (s div 4, s mod 4)"

text \<open>The four action classes and their \<open>direction\<close> methods.\<close>

datatype Action = N | S | E | W

fun direction :: "Action \<Rightarrow> int \<times> int" where
  "direction N = (- 1, 0)"
| "direction S = (1, 0)"
| "direction E = (0, 1)"
| "direction W = (0, - 1)"

text \<open>The global list \<open>actions = [N(), S(), W(), E()]\<close>, in this order.\<close>

definition actions :: "Action list" where
  "actions = [N, S, W, E]"

text \<open>
  \<open>grid_world\<close> is \<open>np.arange(16).reshape(4, 4)\<close> with every entry \<open>s\<close> replaced by
  \<open>State(*divmod(s, 4))\<close>.
\<close>

definition grid_world :: "state list list" where
  "grid_world =
     map (map (\<lambda>s. State (s div 4) (s mod 4)))
       [[0, 1, 2, 3], [4, 5, 6, 7], [8, 9, 10, 11], [12, 13, 14, 15]]"

subsection \<open>Transition function\<close>

definition is_valid_position :: "int \<Rightarrow> int \<Rightarrow> bool" where
  "is_valid_position row col \<longleftrightarrow> 0 \<le> row \<and> row < 4 \<and> 0 \<le> col \<and> col < 4"

definition take_action :: "state \<Rightarrow> Action \<Rightarrow> state" where
  "take_action current_state action =
     (case position current_state of (row, col) \<Rightarrow>
        if (row, col) = (0, 0) \<or> (row, col) = (3, 3) then current_state
        else
          let dirs = direction action;
              new_position = (row + fst dirs, col + snd dirs)
          in if is_valid_position (fst new_position) (snd new_position)
             then State (row + fst dirs) (col + snd dirs)
             else current_state)"

section \<open>Value tables and the evaluation sweep\<close>

text \<open>
  A value table is a 4x4 numpy array, modelled as a list of four rows of four entries.
  The notebook stores \<open>float32\<close> numbers; the entries are modelled as exact real
  numbers (the specification's data model maps states to real numbers), so rounding
  in the last binary digits is outside this development.
\<close>

type_synonym table = "real list list"

definition shape44 :: "'a list list \<Rightarrow> bool" where
  "shape44 t \<longleftrightarrow> length t = 4 \<and> list_all (\<lambda>row. length row = 4) t"

definition zeros :: table where
  "zeros = replicate 4 (replicate 4 0)"

definition zeros_like :: "table \<Rightarrow> table" where
  "zeros_like t = map (map (\<lambda>_. 0)) t"

text \<open>
  Reading \<open>t[row][col]\<close> and the in-place update \<open>t[row, col] += x\<close>. Every index the
  program uses is a row or column of one of the 16 states, hence between 0 and 3
  (lemmas \<open>position_in_grid\<close> and \<open>take_action_in_grid\<close>), and every table it builds
  has the shape 4x4; the theorems about tables assume that shape, so no read is out of
  range.
\<close>

definition lookup :: "'a list list \<Rightarrow> int \<Rightarrow> int \<Rightarrow> 'a" where
  "lookup t row col = t ! nat row ! nat col"

definition add_at :: "table \<Rightarrow> int \<Rightarrow> int \<Rightarrow> real \<Rightarrow> table" where
  "add_at t row col x =
     t[nat row := (t ! nat row)[nat col := t ! nat row ! nat col + x]]"

definition policy_vector :: "real list" where
  "policy_vector = map (\<lambda>one. one / 4) (replicate 4 1)"

definition gamma :: real where
  "gamma = 1"

text \<open>
  \<open>np.max((values - old_values) ** 2) ** 0.5\<close>: the largest entry of the table of
  squared differences, then its square root.
\<close>

definition max_sq_err :: "table \<Rightarrow> table \<Rightarrow> real" where
  "max_sq_err new old =
     sqrt (Max (set (concat (map2 (map2 (\<lambda>x y. (x - y)\<^sup>2)) new old))))"

text \<open>
  The sweep for the uniform random policy (first definition of \<open>update_values\<close>). The
  three nested \<open>for\<close> loops are three nested folds over the table being filled; the
  body adds one term to the entry \<open>values[row, col]\<close>.
\<close>

definition update_values :: "table \<Rightarrow> table \<times> real" where
  "update_values values0 =
     (let old_values = values0;
          values1 = zeros_like values0;
          values2 =
            fold (\<lambda>row. fold (\<lambda>col. fold (\<lambda>(action, prob) vals.
                let s = State row col;
                    new_state = take_action s action;
                    (new_row, new_col) = position new_state;
                    old_value = lookup old_values new_row new_col
                in add_at vals row col (prob * (real_of_int (reward s) + gamma * old_value)))
              (zip actions policy_vector)) [0..3]) [0..3] values1;
          err = max_sq_err values2 old_values
      in (values2, err))"

text \<open>
  The notebook later redefines \<open>update_values\<close> for a deterministic policy table
  \<open>new_policy\<close> (a global there, a parameter here). The action loop is gone: each
  entry receives a single term.
\<close>

definition update_values_det :: "Action list list \<Rightarrow> table \<Rightarrow> table \<times> real" where
  "update_values_det new_policy values0 =
     (let old_values = values0;
          values1 = zeros_like values0;
          values2 =
            fold (\<lambda>row. fold (\<lambda>col vals.
                let action = lookup new_policy row col;
                    s = State row col;
                    new_state = take_action s action;
                    (new_row, new_col) = position new_state;
                    old_value = lookup old_values new_row new_col
                in add_at vals row col (real_of_int (reward s) + gamma * old_value))
              [0..3]) [0..3] values1;
          err = max_sq_err values2 old_values
      in (values2, err))"

section \<open>The convergence loop\<close>

text \<open>
  Both driver cells run
  \<^verbatim>\<open>for i in range(n_iter): values, err = update_values(values); ...; if err < tol: break\<close>
  from the all-zero table. The loop is a recursion over the list of indices; it returns
  the table held by \<open>values\<close> when the loop is left together with the number of
  sweeps that were executed. Printing is left out.
\<close>

definition n_iter :: nat where
  "n_iter = 100"

fun convergence_loop ::
  "(table \<Rightarrow> table \<times> real) \<Rightarrow> real \<Rightarrow> nat list \<Rightarrow> table \<Rightarrow> table \<times> nat" where
  "convergence_loop upd tol [] vals = (vals, 0)"
| "convergence_loop upd tol (i # rest) vals =
     (case upd vals of (vals', err) \<Rightarrow>
        if err < tol then (vals', 1)
        else (case convergence_loop upd tol rest vals' of (v, k) \<Rightarrow> (v, Suc k)))"

definition evaluate_random :: "table \<times> nat" where
  "evaluate_random = convergence_loop update_values (1 / 100) [0..<n_iter] zeros"

definition evaluate_policy :: "Action list list \<Rightarrow> table \<times> nat" where
  "evaluate_policy new_policy =
     convergence_loop (update_values_det new_policy) (1 / 1000) [0..<n_iter] zeros"

text \<open>The table after \<open>k\<close> sweeps, and the error reported by sweep number \<open>k + 1\<close>.\<close>

definition sweeps :: "(table \<Rightarrow> table \<times> real) \<Rightarrow> nat \<Rightarrow> table \<Rightarrow> table" where
  "sweeps upd k vals = ((\<lambda>v. fst (upd v)) ^^ k) vals"

definition err_at :: "(table \<Rightarrow> table \<times> real) \<Rightarrow> nat \<Rightarrow> table \<Rightarrow> real" where
  "err_at upd k vals = snd (upd (sweeps upd k vals))"

section \<open>Policy improvement\<close>

text \<open>
  Python's \<open>max(xs, key=f)\<close> keeps the first element whose key is largest: a later
  element replaces the current best only when its key is strictly greater. On an empty
  list it raises \<open>ValueError\<close>, which is the result \<open>None\<close>.
\<close>

fun py_max :: "('a \<Rightarrow> real) \<Rightarrow> 'a list \<Rightarrow> 'a option" where
  "py_max key [] = None"
| "py_max key (x # xs) = Some (fold (\<lambda>y best. if key best < key y then y else best) xs x)"

definition q_function :: "table \<Rightarrow> int \<Rightarrow> (Action \<times> real) list" where
  "q_function vals state_number =
     map (\<lambda>action.
            let state = State (state_number div 4) (state_number mod 4);
                new_state = take_action state action;
                (row, col) = position new_state;
                v = lookup vals row col
            in (action, v))
         actions"

definition improved_policy :: "table \<Rightarrow> int \<Rightarrow> Action option" where
  "improved_policy vals state_number =
     map_option fst (py_max snd (q_function vals state_number))"

text \<open>
  \<open>new_policy = np.vectorize(lambda s: improved_policy(s))(grid_world)\<close>. The call never
  fails (lemma \<open>improved_policy_total\<close> below), so every entry is an action.
\<close>

definition new_policy :: "table \<Rightarrow> Action list list" where
  "new_policy vals = map (map (\<lambda>s. the (improved_policy vals s))) grid_world"

text \<open>
  The entry of a table that belongs to a state (\<open>row, col = s.position\<close>, then
  \<open>values[row, col]\<close>), and the one-step lookahead value \<open>q(s, a) = V[next(s, a)]\<close>.
\<close>

definition value_at :: "table \<Rightarrow> state \<Rightarrow> real" where
  "value_at vals s = (case position s of (row, col) \<Rightarrow> lookup vals row col)"

definition q :: "table \<Rightarrow> state \<Rightarrow> Action \<Rightarrow> real" where
  "q vals s a = value_at vals (take_action s a)"

section \<open>The specification's formulas\<close>

text \<open>
  The Bellman expectation backup as the specification writes it,
  \<open>\<Sum>\<^sub>a policy(a|s) * (reward(s) + \<gamma> * V_old[next(s, a)])\<close>, for the uniform policy (every
  probability 1/4) and \<open>\<gamma> = 1\<close>; its variant for a deterministic policy table; and
  the largest absolute change of a state's value between two tables.
\<close>

definition bellman_backup :: "table \<Rightarrow> state \<Rightarrow> real" where
  "bellman_backup V_old s =
     (\<Sum>a \<leftarrow> actions. 1 / 4 * (real_of_int (reward s) + 1 * value_at V_old (take_action s a)))"

definition policy_backup :: "Action list list \<Rightarrow> table \<Rightarrow> state \<Rightarrow> real" where
  "policy_backup pol V_old s =
     real_of_int (reward s) +
     1 * value_at V_old (take_action s (case position s of (row, col) \<Rightarrow> lookup pol row col))"

definition max_abs_change :: "table \<Rightarrow> table \<Rightarrow> real" where
  "max_abs_change V_new V_old = Max ((\<lambda>s. \<bar>value_at V_new s - value_at V_old s\<bar>) ` {0..15})"


section \<open>Tables and policies used in the examples\<close>

text \<open>
  A policy table that moves north everywhere. The notebook never builds it; it shows
  what the deterministic loop does under a policy that does not reach a terminal state
  from the top row. \<open>north_table n\<close> is its value table after \<open>n\<close> sweeps from zero.
\<close>

definition all_north :: "Action list list" where
  "all_north = replicate 4 (replicate 4 N)"

definition north_table :: "nat \<Rightarrow> table" where
  "north_table n =
     [[0, - real n, - real n, - real n],
      [- real (min n 1), - real n, - real n, - real n],
      [- real (min n 2), - real n, - real n, - real n],
      [- real (min n 3), - real n, - real n, 0]]"

text \<open>
  The policy table that greedy improvement yields from the evaluated random policy in
  exact arithmetic, the table the notebook printed for \<open>new_policy\<close> (its float32
  values break the tie at position (2, 2) the other way), and the table of negated
  distances to the nearest terminal corner.
\<close>

definition greedy_policy :: "Action list list" where
  "greedy_policy = [[N, W, W, S], [N, N, S, S], [N, N, S, S], [N, E, E, N]]"

definition printed_policy :: "Action list list" where
  "printed_policy = [[N, W, W, S], [N, N, S, S], [N, N, E, S], [N, E, E, N]]"

definition distance_table :: table where
  "distance_table =
     [[0, - 1, - 2, - 3], [- 1, - 2, - 3, - 2], [- 2, - 3, - 2, - 1], [- 3, - 2, - 1, 0]]"


text \<open>
  Tables that are symmetric under both diagonals of the grid, with zero at the terminal
  states, and an order between their five free entries. Every table of the
  uniform-policy evaluation from the third sweep on is of this kind.
\<close>

definition sym_table :: "real \<Rightarrow> real \<Rightarrow> real \<Rightarrow> real \<Rightarrow> real \<Rightarrow> table" where
  "sym_table a b c d e = [[0, a, b, c], [a, d, e, b], [b, e, d, a], [c, b, a, 0]]"




section \<open>Properties of the transition function\<close>

lemma position_State:
  "0 \<le> col \<Longrightarrow> col < 4 \<Longrightarrow> position (State row col) = (row, col)"
  by (simp add: position_def State_def)

lemma State_position: "(case position s of (row, col) \<Rightarrow> State row col) = s"
  by (simp add: position_def State_def)

lemma position_in_grid:
  "0 \<le> s \<Longrightarrow> s < 16 \<Longrightarrow> is_valid_position (fst (position s)) (snd (position s))"
  by (auto simp: position_def is_valid_position_def)

lemma State_in_grid:
  "is_valid_position row col \<Longrightarrow> 0 \<le> State row col \<and> State row col < 16"
  by (simp add: is_valid_position_def State_def)

lemma take_action_in_grid:
  assumes "0 \<le> s" "s < 16"
  shows "0 \<le> take_action s a \<and> take_action s a < 16"
  using assms State_in_grid
  by (simp add: take_action_def position_def Let_def)

text \<open>
  Claim C2. The two terminal corner states, index 0 at position (0, 0) and index 15 at
  position (3, 3), are fixed points of \<open>take_action\<close> under every action.
\<close>

theorem terminal_states_absorbing:
  "State 0 0 = 0 \<and> State 3 3 = 15 \<and> position 0 = (0, 0) \<and> position 15 = (3, 3) \<and>
   take_action 0 a = 0 \<and> take_action 15 a = 15"
  by (simp add: State_def position_def take_action_def)

text \<open>
  Claim C3, as stated: for every state and action, a candidate position inside the grid
  is the position of the result. This fails at a terminal state: from state 0 the move
  \<open>S\<close> has the candidate position (1, 0), which is inside the grid, but the result is
  state 0 and not state 4.
\<close>

theorem take_action_terminal_counterexample:
  "is_valid_position (fst (position 0) + fst (direction S)) (snd (position 0) + snd (direction S)) \<and>
   take_action 0 S \<noteq> State (fst (position 0) + fst (direction S)) (snd (position 0) + snd (direction S))"
  by (simp add: State_def position_def take_action_def is_valid_position_def)

text \<open>
  Claim C3, amended. \<open>take_action\<close> has no failing branch, and on each of the 16 states
  its result is again one of the 16 states, at a position inside the grid. For a
  non-terminal state the result is the state at the candidate position when that
  position is inside the grid, and the state itself otherwise. A terminal state is
  returned unchanged, whatever the candidate position is.
\<close>

theorem take_action_stays_in_grid:
  assumes "0 \<le> s" "s < 16"
  shows "0 \<le> take_action s a \<and> take_action s a < 16 \<and>
         is_valid_position (fst (position (take_action s a))) (snd (position (take_action s a))) \<and>
         (s \<noteq> 0 \<and> s \<noteq> 15 \<longrightarrow>
            take_action s a =
              (if is_valid_position (fst (position s) + fst (direction a))
                                    (snd (position s) + snd (direction a))
               then State (fst (position s) + fst (direction a))
                          (snd (position s) + snd (direction a))
               else s)) \<and>
         (s = 0 \<or> s = 15 \<longrightarrow> take_action s a = s)"
proof -
  have terminal: "take_action s a = s" if "s = 0 \<or> s = 15"
    using that by (auto simp: take_action_def position_def)
  have range: "0 \<le> take_action s a \<and> take_action s a < 16"
    using assms by (rule take_action_in_grid)
  then have valid:
    "is_valid_position (fst (position (take_action s a))) (snd (position (take_action s a)))"
    by (simp add: position_in_grid)
  have inner: "position s \<noteq> (0, 0) \<and> position s \<noteq> (3, 3)" if "s \<noteq> 0 \<and> s \<noteq> 15"
    using that unfolding position_def prod.inject by presburger
  have "take_action s a =
          (if is_valid_position (fst (position s) + fst (direction a))
                                (snd (position s) + snd (direction a))
           then State (fst (position s) + fst (direction a))
                      (snd (position s) + snd (direction a))
           else s)" if "s \<noteq> 0 \<and> s \<noteq> 15"
    using inner [OF that]
    by (cases "position s") (auto simp: take_action_def Let_def)
  with range valid terminal show ?thesis by blast
qed

theorem take_action_stays_in_grid_witness:
  "(0::int) \<le> 7 \<and> (7::int) < 16 \<and> take_action 7 E = 7 \<and> take_action 7 W = 6 \<and>
   \<not> is_valid_position (fst (position 7) + fst (direction E)) (snd (position 7) + snd (direction E)) \<and>
   is_valid_position (fst (position (take_action 7 W))) (snd (position (take_action 7 W))) \<and>
   (0::int) \<le> 0 \<and> (0::int) < 16 \<and> take_action 0 S = 0 \<and>
   is_valid_position (fst (position 0) + fst (direction S)) (snd (position 0) + snd (direction S)) \<and>
   (15::int) < 16 \<and> take_action 15 N = 15"
  using take_action_stays_in_grid [of 7 E] take_action_stays_in_grid [of 7 W]
    take_action_stays_in_grid [of 0 S] take_action_stays_in_grid [of 15 N]
  by (simp add: position_def is_valid_position_def State_def)

section \<open>The sweep as a table of Bellman backups\<close>

lemma upto03: "[0..3] = [0, 1, 2, 3]"
  by (simp add: upto_rec1)

lemma states16: "{0..15::int} = {0, 1, 2, 3, 4, 5, 6, 7, 8, 9, 10, 11, 12, 13, 14, 15}"
  by auto arith

lemma policy_vector_eq: "policy_vector = [1 / 4, 1 / 4, 1 / 4, 1 / 4]"
  by (simp add: policy_vector_def eval_nat_numeral)

lemma zeros_eq: "zeros = [[0, 0, 0, 0], [0, 0, 0, 0], [0, 0, 0, 0], [0, 0, 0, 0]]"
  by (simp add: zeros_def eval_nat_numeral)

lemma shape44_explicit:
  assumes "shape44 t"
  obtains a0 a1 a2 a3 b0 b1 b2 b3 c0 c1 c2 c3 d0 d1 d2 d3 where
    "t = [[a0, a1, a2, a3], [b0, b1, b2, b3], [c0, c1, c2, c3], [d0, d1, d2, d3]]"
proof -
  have len4: "\<exists>w x y z. xs = [w, x, y, z]" if "length xs = 4" for xs :: "'b list"
    using that by (auto simp: eval_nat_numeral length_Suc_conv)
  from assms obtain r0 r1 r2 r3 where t: "t = [r0, r1, r2, r3]"
    using len4 [of t] by (auto simp: shape44_def)
  with assms have "length r0 = 4" "length r1 = 4" "length r2 = 4" "length r3 = 4"
    by (simp_all add: shape44_def)
  then show thesis
    using len4 [of r0] len4 [of r1] len4 [of r2] len4 [of r3] t that by metis
qed

lemma shape44_rows:
  "shape44 [[a0, a1, a2, a3], [b0, b1, b2, b3], [c0, c1, c2, c3], [d0, d1, d2, d3]]"
  by (simp add: shape44_def)

text \<open>
  Repeated \<open>+=\<close> on one entry adds the sum of the terms. The equation also holds for an
  index outside the table, where the list update changes nothing.
\<close>

lemma add_at_add_at: "add_at (add_at t r c x) r c y = add_at t r c (x + y)"
  by (cases "nat r < length t"; cases "nat c < length (t ! nat r)")
    (simp_all add: add_at_def add.assoc list_update_beyond)

lemma add_at_zero: "add_at t r c 0 = t"
  by (simp add: add_at_def)

lemma fold_add_at:
  "fold (\<lambda>p vals. add_at vals r c (f p)) aps t = add_at t r c (\<Sum>p \<leftarrow> aps. f p)"
  by (induction aps arbitrary: t) (simp_all add: add_at_zero add_at_add_at)

lemma fold_add_at_fun:
  "fold (\<lambda>p vals. add_at vals r c (f p)) aps = (\<lambda>t. add_at t r c (\<Sum>p \<leftarrow> aps. f p))"
  by (rule ext) (rule fold_add_at)

text \<open>The two outer loops visit every entry of a 4x4 table exactly once.\<close>

lemma fill_explicit:
  "fold (\<lambda>row. fold (\<lambda>col vals. add_at vals row col (g row col)) [0..3]) [0..3]
     [[a0, a1, a2, a3], [b0, b1, b2, b3], [c0, c1, c2, c3], [d0, d1, d2, d3]] =
   [[a0 + g 0 0, a1 + g 0 1, a2 + g 0 2, a3 + g 0 3],
    [b0 + g 1 0, b1 + g 1 1, b2 + g 1 2, b3 + g 1 3],
    [c0 + g 2 0, c1 + g 2 1, c2 + g 2 2, c3 + g 2 3],
    [d0 + g 3 0, d1 + g 3 1, d2 + g 3 2, d3 + g 3 3]]"
  by (simp add: upto03 add_at_def eval_nat_numeral)

lemma update_values_fold:
  "fst (update_values t) =
     fold (\<lambda>row. fold (\<lambda>col vals. add_at vals row col
        (\<Sum>(a, p) \<leftarrow> zip actions policy_vector.
            p * (real_of_int (reward (State row col)) + gamma * q t (State row col) a)))
        [0..3]) [0..3] (zeros_like t)"
  by (simp add: update_values_def Let_def split_def q_def value_at_def fold_add_at_fun)

lemma update_values_det_fold:
  "fst (update_values_det pol t) =
     fold (\<lambda>row. fold (\<lambda>col vals. add_at vals row col
        (real_of_int (reward (State row col)) + gamma * q t (State row col) (lookup pol row col)))
        [0..3]) [0..3] (zeros_like t)"
  by (simp add: update_values_det_def Let_def split_def q_def value_at_def)

lemma snd_update_values: "snd (update_values t) = max_sq_err (fst (update_values t)) t"
  by (simp add: update_values_def Let_def)

lemma snd_update_values_det:
  "snd (update_values_det pol t) = max_sq_err (fst (update_values_det pol t)) t"
  by (simp add: update_values_det_def Let_def)

lemma value_at_nth: "value_at t s = t ! nat (s div 4) ! nat (s mod 4)"
  by (simp add: value_at_def position_def lookup_def)

text \<open>The states reached from each of the 16 states, in the order N, S, W, E.\<close>

lemma take_action_table:
  "map (take_action 0) actions = [0, 0, 0, 0]"
  "map (take_action 1) actions = [1, 5, 0, 2]"
  "map (take_action 2) actions = [2, 6, 1, 3]"
  "map (take_action 3) actions = [3, 7, 2, 3]"
  "map (take_action 4) actions = [0, 8, 4, 5]"
  "map (take_action 5) actions = [1, 9, 4, 6]"
  "map (take_action 6) actions = [2, 10, 5, 7]"
  "map (take_action 7) actions = [3, 11, 6, 7]"
  "map (take_action 8) actions = [4, 12, 8, 9]"
  "map (take_action 9) actions = [5, 13, 8, 10]"
  "map (take_action 10) actions = [6, 14, 9, 11]"
  "map (take_action 11) actions = [7, 15, 10, 11]"
  "map (take_action 12) actions = [8, 12, 12, 13]"
  "map (take_action 13) actions = [9, 13, 12, 14]"
  "map (take_action 14) actions = [10, 14, 13, 15]"
  "map (take_action 15) actions = [15, 15, 15, 15]"
  by (simp_all add: actions_def take_action_def position_def is_valid_position_def State_def)


lemma update_values_backup:
  assumes "shape44 t"
  shows "fst (update_values t) = map (map (bellman_backup t)) grid_world"
proof -
  from assms obtain a0 a1 a2 a3 b0 b1 b2 b3 c0 c1 c2 c3 d0 d1 d2 d3 where
    t: "t = [[a0, a1, a2, a3], [b0, b1, b2, b3], [c0, c1, c2, c3], [d0, d1, d2, d3]]"
    by (rule shape44_explicit)
  have "fst (update_values t) =
     fold (\<lambda>row. fold (\<lambda>col vals. add_at vals row col
        (\<Sum>(a, p) \<leftarrow> zip actions policy_vector.
            p * (real_of_int (reward (State row col)) + gamma * q t (State row col) a)))
        [0..3]) [0..3] [[0, 0, 0, 0], [0, 0, 0, 0], [0, 0, 0, 0], [0, 0, 0, 0]]"
    by (simp add: update_values_fold) (simp add: t zeros_like_def)
  also have "\<dots> = map (map (bellman_backup t)) grid_world"
    unfolding fill_explicit
    by (simp add: grid_world_def bellman_backup_def q_def actions_def policy_vector_eq gamma_def State_def)
  finally show ?thesis .
qed

lemma update_values_det_backup:
  assumes "shape44 t"
  shows "fst (update_values_det pol t) = map (map (policy_backup pol t)) grid_world"
proof -
  from assms obtain a0 a1 a2 a3 b0 b1 b2 b3 c0 c1 c2 c3 d0 d1 d2 d3 where
    t: "t = [[a0, a1, a2, a3], [b0, b1, b2, b3], [c0, c1, c2, c3], [d0, d1, d2, d3]]"
    by (rule shape44_explicit)
  have "fst (update_values_det pol t) =
     fold (\<lambda>row. fold (\<lambda>col vals. add_at vals row col
        (real_of_int (reward (State row col)) + gamma * q t (State row col) (lookup pol row col)))
        [0..3]) [0..3] [[0, 0, 0, 0], [0, 0, 0, 0], [0, 0, 0, 0], [0, 0, 0, 0]]"
    by (simp add: update_values_det_fold) (simp add: t zeros_like_def)
  also have "\<dots> = map (map (policy_backup pol t)) grid_world"
    unfolding fill_explicit
    by (simp add: grid_world_def policy_backup_def q_def gamma_def State_def position_def)
  finally show ?thesis .
qed



lemma sqrt_Max:
  assumes "xs \<noteq> []"
  shows "sqrt (Max (set xs)) = Max (set (map sqrt xs))"
proof -
  have "mono sqrt" by (simp add: mono_def)
  then have "sqrt (Max (set xs)) = Max (sqrt ` set xs)"
    using assms by (intro mono_Max_commute) simp_all
  then show ?thesis by simp
qed

lemma max_sq_err_abs:
  assumes "concat (map2 (map2 (\<lambda>x y. (x - y)\<^sup>2)) new old) \<noteq> []"
  shows "max_sq_err new old = Max (set (concat (map2 (map2 (\<lambda>x y. \<bar>x - y\<bar>)) new old)))"
proof -
  have "map sqrt (concat (map2 (map2 (\<lambda>x y. (x - y)\<^sup>2)) new old)) =
        concat (map2 (map2 (\<lambda>x y. \<bar>x - y\<bar>)) new old)"
    by (simp add: map_concat split_def comp_def)
  with sqrt_Max [OF assms] show ?thesis by (simp add: max_sq_err_def)
qed

lemma max_sq_err_change:
  assumes "shape44 new" "shape44 old"
  shows "max_sq_err new old = max_abs_change new old"
proof -
  from assms(1) obtain a0 a1 a2 a3 b0 b1 b2 b3 c0 c1 c2 c3 d0 d1 d2 d3 where
    new: "new = [[a0, a1, a2, a3], [b0, b1, b2, b3], [c0, c1, c2, c3], [d0, d1, d2, d3]]"
    by (rule shape44_explicit)
  from assms(2) obtain a0' a1' a2' a3' b0' b1' b2' b3' c0' c1' c2' c3' d0' d1' d2' d3' where
    old: "old = [[a0', a1', a2', a3'], [b0', b1', b2', b3'], [c0', c1', c2', c3'], [d0', d1', d2', d3']]"
    by (rule shape44_explicit)
  have "max_sq_err new old = Max (set (concat (map2 (map2 (\<lambda>x y. \<bar>x - y\<bar>)) new old)))"
    by (rule max_sq_err_abs) (simp add: new old)
  also have "set (concat (map2 (map2 (\<lambda>x y. \<bar>x - y\<bar>)) new old)) =
     (\<lambda>s. \<bar>value_at new s - value_at old s\<bar>) ` {0..15}"
    unfolding states16 by (simp add: new old value_at_nth insert_commute)
  finally show ?thesis by (simp add: max_abs_change_def)
qed





lemma bellman_backup_successors:
  "bellman_backup V s =
     (\<Sum>s' \<leftarrow> map (take_action s) actions. 1 / 4 * (real_of_int (reward s) + 1 * value_at V s'))"
  by (simp add: bellman_backup_def comp_def)




text \<open>The sweep written out entry by entry.\<close>

lemma bellman_backup_values:
  fixes a0 a1 a2 a3 b0 b1 b2 b3 c0 c1 c2 c3 d0 d1 d2 d3 :: real
  defines "t \<equiv> [[a0, a1, a2, a3], [b0, b1, b2, b3], [c0, c1, c2, c3], [d0, d1, d2, d3]]"
  shows "bellman_backup t 0 = a0"
    and "bellman_backup t 1 = (a1 + b1 + a0 + a2) / 4 - 1"
    and "bellman_backup t 2 = (a2 + b2 + a1 + a3) / 4 - 1"
    and "bellman_backup t 3 = (a3 + b3 + a2 + a3) / 4 - 1"
    and "bellman_backup t 4 = (a0 + c0 + b0 + b1) / 4 - 1"
    and "bellman_backup t 5 = (a1 + c1 + b0 + b2) / 4 - 1"
    and "bellman_backup t 6 = (a2 + c2 + b1 + b3) / 4 - 1"
    and "bellman_backup t 7 = (a3 + c3 + b2 + b3) / 4 - 1"
    and "bellman_backup t 8 = (b0 + d0 + c0 + c1) / 4 - 1"
    and "bellman_backup t 9 = (b1 + d1 + c0 + c2) / 4 - 1"
    and "bellman_backup t 10 = (b2 + d2 + c1 + c3) / 4 - 1"
    and "bellman_backup t 11 = (b3 + d3 + c2 + c3) / 4 - 1"
    and "bellman_backup t 12 = (c0 + d0 + d0 + d1) / 4 - 1"
    and "bellman_backup t 13 = (c1 + d1 + d0 + d2) / 4 - 1"
    and "bellman_backup t 14 = (c2 + d2 + d1 + d3) / 4 - 1"
    and "bellman_backup t 15 = d3"
  unfolding t_def
  by (simp_all add: bellman_backup_successors take_action_table reward_def value_at_nth
      add_divide_distrib diff_divide_distrib)

lemma grid_world_eq:
  "grid_world = [[0, 1, 2, 3], [4, 5, 6, 7], [8, 9, 10, 11], [12, 13, 14, 15]]"
  by (simp add: grid_world_def State_def)

lemma update_values_explicit:
  "fst (update_values [[a0, a1, a2, a3], [b0, b1, b2, b3], [c0, c1, c2, c3], [d0, d1, d2, d3]]) =
    [[a0, (a1 + b1 + a0 + a2) / 4 - 1, (a2 + b2 + a1 + a3) / 4 - 1, (a3 + b3 + a2 + a3) / 4 - 1],
     [(a0 + c0 + b0 + b1) / 4 - 1, (a1 + c1 + b0 + b2) / 4 - 1,
      (a2 + c2 + b1 + b3) / 4 - 1, (a3 + c3 + b2 + b3) / 4 - 1],
     [(b0 + d0 + c0 + c1) / 4 - 1, (b1 + d1 + c0 + c2) / 4 - 1,
      (b2 + d2 + c1 + c3) / 4 - 1, (b3 + d3 + c2 + c3) / 4 - 1],
     [(c0 + d0 + d0 + d1) / 4 - 1, (c1 + d1 + d0 + d2) / 4 - 1,
      (c2 + d2 + d1 + d3) / 4 - 1, d3]]"
  by (simp only: update_values_backup [OF shape44_rows] grid_world_eq list.map
      bellman_backup_values)



text \<open>
  Claim C6. One sweep of the uniform-policy evaluation from the all-zero table gives
  the value 0 at the two terminal states (indices 0 and 15) and the value -1 at each
  of the other 14 states.
\<close>

theorem first_sweep_from_zeros:
  "fst (update_values zeros) =
     [[0, - 1, - 1, - 1], [- 1, - 1, - 1, - 1], [- 1, - 1, - 1, - 1], [- 1, - 1, - 1, 0]] \<and>
   map (value_at (fst (update_values zeros))) [0, 1, 2, 3, 4, 5, 6, 7, 8, 9, 10, 11, 12, 13, 14, 15] =
     [0, - 1, - 1, - 1, - 1, - 1, - 1, - 1, - 1, - 1, - 1, - 1, - 1, - 1, - 1, 0]"
  by (simp add: zeros_eq update_values_explicit value_at_nth)

lemma max_abs_change_list:
  "max_abs_change new old =
     Max (set (map (\<lambda>s. \<bar>value_at new s - value_at old s\<bar>)
       [0, 1, 2, 3, 4, 5, 6, 7, 8, 9, 10, 11, 12, 13, 14, 15]))"
  unfolding max_abs_change_def states16 by (simp only: list.map list.set image_insert image_empty)


section \<open>Properties of the convergence loop\<close>

lemma sweeps_0: "sweeps upd 0 V = V"
  by (simp add: sweeps_def)

lemma sweeps_Suc: "sweeps upd (Suc k) V = fst (upd (sweeps upd k V))"
  by (simp add: sweeps_def)

lemma sweeps_Suc_first: "sweeps upd (Suc k) V = sweeps upd k (fst (upd V))"
  unfolding sweeps_def by (simp only: funpow_Suc_right comp_def)

lemma err_at_0: "err_at upd 0 V = snd (upd V)"
  by (simp add: err_at_def sweeps_0)

lemma err_at_Suc: "err_at upd (Suc k) V = err_at upd k (fst (upd V))"
  by (simp add: err_at_def sweeps_Suc_first)

text \<open>
  The loop leaves with the table of the first sweep whose error is below the
  tolerance, or with the table of the last sweep when no error was below it.
\<close>

lemma convergence_loop_result:
  "\<exists>k. k \<le> length idx \<and> (idx \<noteq> [] \<longrightarrow> 1 \<le> k) \<and>
       convergence_loop upd tol idx V = (sweeps upd k V, k) \<and>
       (\<forall>j<k - 1. \<not> err_at upd j V < tol) \<and>
       (k < length idx \<longrightarrow> err_at upd (k - 1) V < tol)"
proof (induction idx arbitrary: V)
  case Nil
  show ?case by (simp add: sweeps_0)
next
  case (Cons i rest)
  obtain V' err where upd: "upd V = (V', err)" by (cases "upd V")
  show ?case
  proof (cases "err < tol")
    case True
    with upd have "convergence_loop upd tol (i # rest) V = (sweeps upd 1 V, 1)"
      by (simp add: sweeps_def)
    moreover from True upd have "err_at upd 0 V < tol" by (simp add: err_at_0)
    ultimately show ?thesis by (intro exI [of _ 1]) simp
  next
    case False
    from Cons.IH [of V'] obtain k where k: "k \<le> length rest" "rest \<noteq> [] \<longrightarrow> 1 \<le> k"
      "convergence_loop upd tol rest V' = (sweeps upd k V', k)"
      "\<forall>j<k - 1. \<not> err_at upd j V' < tol"
      "k < length rest \<longrightarrow> err_at upd (k - 1) V' < tol"
      by blast
    from False upd k(3) have loop: "convergence_loop upd tol (i # rest) V = (sweeps upd (Suc k) V, Suc k)"
      by (simp add: sweeps_Suc_first)
    have before: "\<not> err_at upd j V < tol" if "j < k" for j
    proof (cases j)
      case 0
      with False upd show ?thesis by (simp add: err_at_0)
    next
      case (Suc j')
      with that k(4) upd show ?thesis by (simp add: err_at_Suc)
    qed
    have last: "err_at upd k V < tol" if "k < length rest"
    proof -
      from that k(2) obtain k' where "k = Suc k'" by (cases k) auto
      with that k(5) upd show ?thesis by (simp add: err_at_Suc)
    qed
    from loop before last k(1) show ?thesis
      by (intro exI [of _ "Suc k"]) simp
  qed
qed

lemma all_north_eq: "all_north = [[N, N, N, N], [N, N, N, N], [N, N, N, N], [N, N, N, N]]"
  by (simp add: all_north_def eval_nat_numeral)

lemma policy_backup_north:
  "map (policy_backup all_north t) [0, 1, 2, 3, 4, 5, 6, 7, 8, 9, 10, 11, 12, 13, 14, 15] =
   [value_at t 0, value_at t 1 - 1, value_at t 2 - 1, value_at t 3 - 1,
    value_at t 0 - 1, value_at t 1 - 1, value_at t 2 - 1, value_at t 3 - 1,
    value_at t 4 - 1, value_at t 5 - 1, value_at t 6 - 1, value_at t 7 - 1,
    value_at t 8 - 1, value_at t 9 - 1, value_at t 10 - 1, value_at t 15]"
  by (simp add: policy_backup_def position_def lookup_def all_north_eq reward_def
      take_action_def is_valid_position_def State_def)

lemma shape44_north_table: "shape44 (north_table n)"
  by (simp add: north_table_def shape44_def)

lemma north_table_step:
  "fst (update_values_det all_north (north_table n)) = north_table (Suc n)"
proof -
  have "fst (update_values_det all_north (north_table n)) =
        map (map (policy_backup all_north (north_table n))) grid_world"
    by (rule update_values_det_backup) (rule shape44_north_table)
  also have "\<dots> = north_table (Suc n)"
    using policy_backup_north [of "north_table n"]
    by (simp add: grid_world_eq) (simp add: north_table_def value_at_nth min_def)
  finally show ?thesis .
qed

lemma sweeps_north: "sweeps (update_values_det all_north) n zeros = north_table n"
proof (induction n)
  case 0
  show ?case by (simp add: sweeps_0 zeros_eq north_table_def)
next
  case (Suc n)
  then show ?case by (simp add: sweeps_Suc north_table_step)
qed

lemma max_abs_change_ge:
  "0 \<le> s \<Longrightarrow> s < 16 \<Longrightarrow> \<bar>value_at new s - value_at old s\<bar> \<le> max_abs_change new old"
  unfolding max_abs_change_def by (rule Max_ge) simp_all

lemma err_north: "err_at (update_values_det all_north) j zeros \<ge> 1"
proof -
  have "err_at (update_values_det all_north) j zeros =
        max_abs_change (north_table (Suc j)) (north_table j)"
    by (simp add: err_at_def sweeps_north snd_update_values_det north_table_step
        max_sq_err_change shape44_north_table)
  moreover have "\<bar>value_at (north_table (Suc j)) 1 - value_at (north_table j) 1\<bar> = 1"
    by (simp add: north_table_def value_at_nth)
  ultimately show ?thesis
    using max_abs_change_ge [of 1 "north_table (Suc j)" "north_table j"] by simp
qed

lemma take_action_terminal: "take_action 0 a = 0" "take_action 15 a = 15"
  by (simp_all add: take_action_def position_def)

text \<open>The deterministic sweep under a policy table written out row by row.\<close>

lemma update_values_det_explicit:
  fixes a0 a1 a2 a3 b0 b1 b2 b3 c0 c1 c2 c3 d0 d1 d2 d3 :: real
    and p0 p1 p2 p3 p4 p5 p6 p7 p8 p9 p10 p11 p12 p13 p14 p15 :: Action
  defines "t \<equiv> [[a0, a1, a2, a3], [b0, b1, b2, b3], [c0, c1, c2, c3], [d0, d1, d2, d3]]"
  defines "pol \<equiv> [[p0, p1, p2, p3], [p4, p5, p6, p7], [p8, p9, p10, p11], [p12, p13, p14, p15]]"
  shows "fst (update_values_det pol t) =
    [[a0, value_at t (take_action 1 p1) - 1,
      value_at t (take_action 2 p2) - 1, value_at t (take_action 3 p3) - 1],
     [value_at t (take_action 4 p4) - 1, value_at t (take_action 5 p5) - 1,
      value_at t (take_action 6 p6) - 1, value_at t (take_action 7 p7) - 1],
     [value_at t (take_action 8 p8) - 1, value_at t (take_action 9 p9) - 1,
      value_at t (take_action 10 p10) - 1, value_at t (take_action 11 p11) - 1],
     [value_at t (take_action 12 p12) - 1, value_at t (take_action 13 p13) - 1,
      value_at t (take_action 14 p14) - 1, d3]]"
proof -
  have "shape44 t" unfolding t_def by (rule shape44_rows)
  then have "fst (update_values_det pol t) = map (map (policy_backup pol t)) grid_world"
    by (rule update_values_det_backup)
  moreover have "policy_backup pol t 0 = a0" "policy_backup pol t 15 = d3"
    by (simp_all add: policy_backup_def position_def reward_def take_action_terminal value_at_nth t_def)
  ultimately show ?thesis
    by (simp add: grid_world_eq) (simp add: policy_backup_def position_def lookup_def pol_def reward_def)
qed

lemmas take_action_eval = take_action_def position_def is_valid_position_def State_def

lemma greedy_sweep_1:
  "fst (update_values_det greedy_policy zeros) =
     [[0, - 1, - 1, - 1], [- 1, - 1, - 1, - 1], [- 1, - 1, - 1, - 1], [- 1, - 1, - 1, 0]]"
  by (simp add: greedy_policy_def zeros_eq update_values_det_explicit take_action_eval value_at_nth)

lemma greedy_sweep_2:
  "fst (update_values_det greedy_policy
     [[0, - 1, - 1, - 1], [- 1, - 1, - 1, - 1], [- 1, - 1, - 1, - 1], [- 1, - 1, - 1, 0]]) =
     [[0, - 1, - 2, - 2], [- 1, - 2, - 2, - 2], [- 2, - 2, - 2, - 1], [- 2, - 2, - 1, 0]]"
  by (simp add: greedy_policy_def update_values_det_explicit take_action_eval value_at_nth)

lemma greedy_sweep_3:
  "fst (update_values_det greedy_policy
     [[0, - 1, - 2, - 2], [- 1, - 2, - 2, - 2], [- 2, - 2, - 2, - 1], [- 2, - 2, - 1, 0]]) =
     distance_table"
  by (simp add: greedy_policy_def distance_table_def update_values_det_explicit take_action_eval value_at_nth)

lemma greedy_sweep_4:
  "fst (update_values_det greedy_policy distance_table) = distance_table"
  by (simp add: greedy_policy_def distance_table_def update_values_det_explicit take_action_eval value_at_nth)

lemma greedy_sweeps:
  "sweeps (update_values_det greedy_policy) 0 zeros = zeros"
  "sweeps (update_values_det greedy_policy) 1 zeros =
     [[0, - 1, - 1, - 1], [- 1, - 1, - 1, - 1], [- 1, - 1, - 1, - 1], [- 1, - 1, - 1, 0]]"
  "sweeps (update_values_det greedy_policy) 2 zeros =
     [[0, - 1, - 2, - 2], [- 1, - 2, - 2, - 2], [- 2, - 2, - 2, - 1], [- 2, - 2, - 1, 0]]"
  "sweeps (update_values_det greedy_policy) 3 zeros = distance_table"
  "sweeps (update_values_det greedy_policy) 4 zeros = distance_table"
  by (simp_all add: sweeps_def eval_nat_numeral greedy_sweep_1 greedy_sweep_2 greedy_sweep_3
      greedy_sweep_4)

lemma greedy_errs:
  "err_at (update_values_det greedy_policy) 0 zeros = 1"
  "err_at (update_values_det greedy_policy) 1 zeros = 1"
  "err_at (update_values_det greedy_policy) 2 zeros = 1"
  "err_at (update_values_det greedy_policy) 3 zeros = 0"
  unfolding err_at_def greedy_sweeps snd_update_values_det
    greedy_sweep_1 greedy_sweep_2 greedy_sweep_3 greedy_sweep_4
  by (simp_all add: max_sq_err_change shape44_rows distance_table_def zeros_eq
      max_abs_change_list value_at_nth)

lemma loop_from_zeros:
  "\<exists>k. 1 \<le> k \<and> k \<le> 100 \<and>
       convergence_loop upd tol [0..<n_iter] zeros = (sweeps upd k zeros, k) \<and>
       (\<forall>j<k - 1. \<not> err_at upd j zeros < tol) \<and>
       (k < 100 \<longrightarrow> err_at upd (k - 1) zeros < tol)"
proof -
  have "length [0..<n_iter] = 100" "[0..<n_iter] \<noteq> []"
    by (simp_all add: n_iter_def)
  with convergence_loop_result [of "[0..<n_iter]" upd tol zeros] show ?thesis
    by auto
qed

lemma loop_all_north:
  "evaluate_policy all_north = (sweeps (update_values_det all_north) 100 zeros, 100)"
proof -
  obtain k where k: "1 \<le> k" "k \<le> 100"
    "evaluate_policy all_north = (sweeps (update_values_det all_north) k zeros, k)"
    "k < 100 \<longrightarrow> err_at (update_values_det all_north) (k - 1) zeros < 1 / 1000"
    using loop_from_zeros [of "update_values_det all_north" "1 / 1000"]
    unfolding evaluate_policy_def by blast
  from err_north [of "k - 1"] k(4) have "\<not> k < 100" by auto
  with k(2) have "k = 100" by simp
  with k(3) show ?thesis by simp
qed

text \<open>
  Claim C4. Each driver loop starts from the all-zero table and makes between 1 and 100
  sweeps. It returns the table of sweep number \<open>k\<close>, where no earlier sweep reported an
  error below the tolerance (0.01 for the random policy, 0.001 for a policy table), and
  where sweep \<open>k\<close> did unless \<open>k\<close> is the cap of 100. When the cap is reached the result
  is simply the table of the last sweep: under the policy that moves north everywhere
  the loop makes all 100 sweeps and the last error is still not below the tolerance.
\<close>

theorem convergence_loop_stops_at_first_small_error:
  "(\<exists>k. 1 \<le> k \<and> k \<le> 100 \<and>
        evaluate_random = (sweeps update_values k zeros, k) \<and>
        (\<forall>j<k - 1. \<not> err_at update_values j zeros < 1 / 100) \<and>
        (k < 100 \<longrightarrow> err_at update_values (k - 1) zeros < 1 / 100)) \<and>
   (\<exists>k. 1 \<le> k \<and> k \<le> 100 \<and>
        evaluate_policy pol = (sweeps (update_values_det pol) k zeros, k) \<and>
        (\<forall>j<k - 1. \<not> err_at (update_values_det pol) j zeros < 1 / 1000) \<and>
        (k < 100 \<longrightarrow> err_at (update_values_det pol) (k - 1) zeros < 1 / 1000)) \<and>
   evaluate_policy all_north = (sweeps (update_values_det all_north) 100 zeros, 100) \<and>
   \<not> err_at (update_values_det all_north) 99 zeros < 1 / 1000"
proof -
  have "\<not> err_at (update_values_det all_north) 99 zeros < 1 / 1000"
    using err_north [of 99] by simp
  then show ?thesis
    using loop_from_zeros [of update_values "1 / 100"]
      loop_from_zeros [of "update_values_det pol" "1 / 1000"] loop_all_north
    unfolding evaluate_random_def evaluate_policy_def by blast
qed

theorem convergence_loop_stops_at_first_small_error_witness:
  "evaluate_policy greedy_policy = (distance_table, 4) \<and> (4::nat) < 100 \<and>
   err_at (update_values_det greedy_policy) (4 - 1) zeros < 1 / 1000 \<and>
   \<not> err_at (update_values_det greedy_policy) 2 zeros < 1 / 1000"
proof -
  obtain k where k: "1 \<le> k" "k \<le> 100"
    "evaluate_policy greedy_policy = (sweeps (update_values_det greedy_policy) k zeros, k)"
    "\<forall>j<k - 1. \<not> err_at (update_values_det greedy_policy) j zeros < 1 / 1000"
    "k < 100 \<longrightarrow> err_at (update_values_det greedy_policy) (k - 1) zeros < 1 / 1000"
    using convergence_loop_stops_at_first_small_error [of greedy_policy] by blast
  have "\<not> 3 < k - 1"
    using k(4) greedy_errs(4) by auto
  moreover have "k - 1 \<noteq> 0" "k - 1 \<noteq> 1" "k - 1 \<noteq> 2"
    using k(2,5) greedy_errs(1-3) by auto
  ultimately have "k = 4" using k(1) by arith
  with k(3) show ?thesis
    by (simp add: greedy_sweeps greedy_errs)
qed

section \<open>Properties of policy improvement\<close>

text \<open>
  The scan of \<open>max(xs, key=f)\<close>: the result sits at some index of the list, no key is
  larger than its key, and every key before that index is strictly smaller.
\<close>

lemma py_max_scan:
  fixes key :: "'a \<Rightarrow> real"
  shows "\<exists>i<length (x # xs).
      fold (\<lambda>y best. if key best < key y then y else best) xs x = (x # xs) ! i \<and>
      (\<forall>j<length (x # xs). key ((x # xs) ! j) \<le> key ((x # xs) ! i)) \<and>
      (\<forall>j<i. key ((x # xs) ! j) < key ((x # xs) ! i))"
proof (induction xs rule: rev_induct)
  case Nil
  show ?case by simp
next
  case (snoc y xs)
  let ?step = "\<lambda>y best. if key best < key y then y else best"
  define L where "L = x # xs"
  define L' where "L' = x # xs @ [y]"
  from snoc obtain i where i: "i < length L" "fold ?step xs x = L ! i"
    "\<forall>j<length L. key (L ! j) \<le> key (L ! i)" "\<forall>j<i. key (L ! j) < key (L ! i)"
    unfolding L_def by blast
  have old: "L' ! j = L ! j" if "j < length L" for j
    using that nth_append [of L "[y]" j] by (simp add: L_def L'_def)
  have new: "L' ! length L = y"
    using nth_append_length [of L y "[]"] by (simp add: L_def L'_def)
  have len: "length L' = Suc (length L)"
    by (simp add: L_def L'_def)
  have result: "fold ?step (xs @ [y]) x = (if key (L ! i) < key y then y else L ! i)"
    using i(2) by simp
  have "\<exists>i<length L'. fold ?step (xs @ [y]) x = L' ! i \<and>
          (\<forall>j<length L'. key (L' ! j) \<le> key (L' ! i)) \<and> (\<forall>j<i. key (L' ! j) < key (L' ! i))"
  proof (cases "key (L ! i) < key y")
    case True
    have "key (L' ! j) < key y" if "j < length L" for j
    proof -
      from that i(3) have "key (L ! j) \<le> key (L ! i)" by blast
      with True old [OF that] show ?thesis by simp
    qed
    moreover have "key (L' ! j) \<le> key y" if "j < length L'" for j
    proof (cases "j < length L")
      case True
      with calculation show ?thesis by (simp add: less_imp_le)
    next
      case False
      with that len have "j = length L" by simp
      with new show ?thesis by simp
    qed
    ultimately show ?thesis
      using True result new len
      by (intro exI [of _ "length L"]) simp
  next
    case False
    have "key (L' ! j) \<le> key (L' ! i)" if "j < length L'" for j
    proof (cases "j < length L")
      case True
      with i(1,3) old show ?thesis by simp
    next
      case no: False
      with that len have "j = length L" by simp
      with new False old [OF i(1)] show ?thesis by simp
    qed
    moreover have "key (L' ! j) < key (L' ! i)" if "j < i" for j
    proof -
      from that i(1) have "j < length L" by simp
      with that i(1,4) old show ?thesis by simp
    qed
    ultimately show ?thesis
      using False result old [OF i(1)] i(1) len
      by (intro exI [of _ i]) simp
  qed
  then show ?case unfolding L'_def .
qed

lemma py_max_first_maximum:
  assumes "xs \<noteq> []"
  shows "\<exists>i<length xs. py_max key xs = Some (xs ! i) \<and>
           (\<forall>j<length xs. key (xs ! j) \<le> key (xs ! i)) \<and>
           (\<forall>j<i. key (xs ! j) < key (xs ! i))"
proof -
  from assms obtain x rest where "xs = x # rest" by (cases xs) auto
  with py_max_scan [of x rest key] show ?thesis by simp
qed

lemma q_function_nth:
  "0 \<le> s \<Longrightarrow> s < 16 \<Longrightarrow> i < length actions \<Longrightarrow>
     q_function V s ! i = (actions ! i, q V s (actions ! i))"
proof -
  have "State (s div 4) (s mod 4) = s" by (simp add: State_def)
  then show "i < length actions \<Longrightarrow> q_function V s ! i = (actions ! i, q V s (actions ! i))"
    by (simp add: q_function_def q_def value_at_def Let_def split_def)
qed

lemma improved_policy_total: "\<exists>a. improved_policy V s = Some a"
proof -
  have "q_function V s \<noteq> []" by (simp add: q_function_def actions_def)
  then obtain x xs where "q_function V s = x # xs" by (cases "q_function V s") auto
  then show ?thesis by (simp add: improved_policy_def)
qed

lemma improved_policy_first_maximum:
  assumes "0 \<le> s" "s < 16"
  shows "\<exists>i<length actions. improved_policy V s = Some (actions ! i) \<and>
           (\<forall>j<length actions. q V s (actions ! j) \<le> q V s (actions ! i)) \<and>
           (\<forall>j<i. q V s (actions ! j) < q V s (actions ! i))"
proof -
  have len: "length (q_function V s) = length actions" by (simp add: q_function_def)
  then have "q_function V s \<noteq> []" by (auto simp: actions_def)
  from py_max_first_maximum [OF this, of snd] len obtain i where i: "i < length actions"
    "py_max snd (q_function V s) = Some (q_function V s ! i)"
    "\<forall>j<length actions. snd (q_function V s ! j) \<le> snd (q_function V s ! i)"
    "\<forall>j<i. snd (q_function V s ! j) < snd (q_function V s ! i)"
    by auto
  from i assms show ?thesis
    by (intro exI [of _ i]) (simp add: improved_policy_def q_function_nth)
qed

text \<open>
  Claim C5. For a 4x4 value table and each of the 16 states, \<open>improved_policy\<close> returns
  an action, its lookahead value \<open>q\<close> is the largest among the four actions, and every
  action that comes before it in the list \<open>actions\<close> has a strictly smaller lookahead
  value: the first maximiser is chosen.
\<close>

theorem improved_policy_first_argmax:
  assumes "shape44 V" "0 \<le> s" "s < 16"
  shows "\<exists>i<length actions. improved_policy V s = Some (actions ! i) \<and>
           (\<forall>a. q V s a \<le> q V s (actions ! i)) \<and>
           (\<forall>j<i. q V s (actions ! j) < q V s (actions ! i))"
proof -
  from improved_policy_first_maximum [OF assms(2,3), of V] obtain i where i:
    "i < length actions" "improved_policy V s = Some (actions ! i)"
    "\<forall>j<length actions. q V s (actions ! j) \<le> q V s (actions ! i)"
    "\<forall>j<i. q V s (actions ! j) < q V s (actions ! i)"
    by blast
  have "q V s a \<le> q V s (actions ! i)" for a
  proof -
    have "a \<in> set actions" by (cases a) (simp_all add: actions_def)
    then obtain j where "j < length actions" "actions ! j = a"
      by (auto simp: in_set_conv_nth)
    with i(3) show ?thesis by auto
  qed
  with i show ?thesis by blast
qed

lemma shape44_distance_table: "shape44 distance_table"
  by (simp add: distance_table_def shape44_def)

theorem improved_policy_first_argmax_witness:
  "shape44 distance_table \<and> (0::int) \<le> 6 \<and> (6::int) < 16 \<and>
   improved_policy distance_table 6 = Some N \<and>
   q distance_table 6 N = q distance_table 6 S \<and> q distance_table 6 N = q distance_table 6 W \<and>
   q distance_table 6 N = q distance_table 6 E"
proof -
  have qs: "q distance_table 6 a = - 2" for a
    by (cases a) (simp_all add: q_def take_action_eval value_at_nth distance_table_def)
  obtain i where i: "i < length actions" "improved_policy distance_table 6 = Some (actions ! i)"
    "\<forall>j<i. q distance_table 6 (actions ! j) < q distance_table 6 (actions ! i)"
    using improved_policy_first_argmax [OF shape44_distance_table, of 6] by auto
  have "i = 0"
  proof (rule ccontr)
    assume "i \<noteq> 0"
    then have "0 < i" by simp
    with i(3) have "q distance_table 6 (actions ! 0) < q distance_table 6 (actions ! i)"
      by blast
    with qs show False by simp
  qed
  with i(2) show ?thesis
    by (simp add: actions_def qs shape44_distance_table)
qed

section \<open>Invariants of the sweeps\<close>




















section \<open>The greedy policy of the evaluated random policy\<close>

lemma update_values_sym_table:
  "fst (update_values (sym_table a b c d e)) =
     sym_table ((a + d + 0 + b) / 4 - 1) ((b + e + a + c) / 4 - 1) ((c + b + b + c) / 4 - 1)
       ((a + e + a + e) / 4 - 1) ((b + d + d + b) / 4 - 1)"
  unfolding sym_table_def update_values_explicit by simp











lemma loop_stops_at_4:
  assumes "err_at upd 0 zeros = 1" "err_at upd 1 zeros = 1" "err_at upd 2 zeros = 1"
    "err_at upd 3 zeros = 0"
  shows "convergence_loop upd (1 / 1000) [0..<n_iter] zeros = (sweeps upd 4 zeros, 4)"
proof -
  obtain k where k: "1 \<le> k" "k \<le> 100"
    "convergence_loop upd (1 / 1000) [0..<n_iter] zeros = (sweeps upd k zeros, k)"
    "\<forall>j<k - 1. \<not> err_at upd j zeros < 1 / 1000"
    "k < 100 \<longrightarrow> err_at upd (k - 1) zeros < 1 / 1000"
    using loop_from_zeros [of upd "1 / 1000"] by blast
  have "\<not> 3 < k - 1"
    using k(4) assms(4) by auto
  moreover have "k - 1 \<noteq> 0" "k - 1 \<noteq> 1" "k - 1 \<noteq> 2"
    using k(2,5) assms(1-3) by auto
  ultimately have "k = 4" using k(1) by arith
  with k(3) show ?thesis by simp
qed


lemma distance_table_values:
  "map (value_at distance_table) [0, 1, 2, 3, 4, 5, 6, 7, 8, 9, 10, 11, 12, 13, 14, 15] =
   [0, - 1, - 2, - 3, - 1, - 2, - 3, - 2, - 2, - 3, - 2, - 1, - 3, - 2, - 1, 0]"
  by (simp add: distance_table_def value_at_nth)





text \<open>
  The policy table that the notebook printed differs from \<open>greedy_policy\<close> at position
  (2, 2) only, where both moves lead to a state of the same value; its evaluation is
  the same.
\<close>

lemma printed_policy_errs:
  "err_at (update_values_det printed_policy) 0 zeros = 1"
  "err_at (update_values_det printed_policy) 1 zeros = 1"
  "err_at (update_values_det printed_policy) 2 zeros = 1"
  "err_at (update_values_det printed_policy) 3 zeros = 0"
  and printed_policy_sweeps: "sweeps (update_values_det printed_policy) 4 zeros = distance_table"
proof -
  have 1: "fst (update_values_det printed_policy zeros) =
     [[0, - 1, - 1, - 1], [- 1, - 1, - 1, - 1], [- 1, - 1, - 1, - 1], [- 1, - 1, - 1, 0]]"
    by (simp add: printed_policy_def zeros_eq update_values_det_explicit take_action_eval value_at_nth)
  have 2: "fst (update_values_det printed_policy
     [[0, - 1, - 1, - 1], [- 1, - 1, - 1, - 1], [- 1, - 1, - 1, - 1], [- 1, - 1, - 1, 0]]) =
     [[0, - 1, - 2, - 2], [- 1, - 2, - 2, - 2], [- 2, - 2, - 2, - 1], [- 2, - 2, - 1, 0]]"
    by (simp add: printed_policy_def update_values_det_explicit take_action_eval value_at_nth)
  have 3: "fst (update_values_det printed_policy
     [[0, - 1, - 2, - 2], [- 1, - 2, - 2, - 2], [- 2, - 2, - 2, - 1], [- 2, - 2, - 1, 0]]) =
     distance_table"
    by (simp add: printed_policy_def distance_table_def update_values_det_explicit take_action_eval value_at_nth)
  have 4: "fst (update_values_det printed_policy distance_table) = distance_table"
    by (simp add: printed_policy_def distance_table_def update_values_det_explicit take_action_eval value_at_nth)
  have s: "sweeps (update_values_det printed_policy) 0 zeros = zeros"
    "sweeps (update_values_det printed_policy) 1 zeros =
       [[0, - 1, - 1, - 1], [- 1, - 1, - 1, - 1], [- 1, - 1, - 1, - 1], [- 1, - 1, - 1, 0]]"
    "sweeps (update_values_det printed_policy) 2 zeros =
       [[0, - 1, - 2, - 2], [- 1, - 2, - 2, - 2], [- 2, - 2, - 2, - 1], [- 2, - 2, - 1, 0]]"
    "sweeps (update_values_det printed_policy) 3 zeros = distance_table"
    by (simp_all add: sweeps_def eval_nat_numeral 1 2 3)
  show "sweeps (update_values_det printed_policy) 4 zeros = distance_table"
    by (simp add: sweeps_def eval_nat_numeral 1 2 3 4)
  show "err_at (update_values_det printed_policy) 0 zeros = 1"
    "err_at (update_values_det printed_policy) 1 zeros = 1"
    "err_at (update_values_det printed_policy) 2 zeros = 1"
    "err_at (update_values_det printed_policy) 3 zeros = 0"
    unfolding err_at_def s snd_update_values_det 1 2 3 4
    by (simp_all add: max_sq_err_change shape44_rows distance_table_def zeros_eq
        max_abs_change_list value_at_nth)
qed

lemma evaluate_policy_printed: "evaluate_policy printed_policy = (distance_table, 4)"
  unfolding evaluate_policy_def
  by (simp add: loop_stops_at_4 [OF printed_policy_errs] printed_policy_sweeps)

section \<open>Policy improvement at a fixed point\<close>















section \<open>The number of sweeps of the random-policy evaluation\<close>


lemma max_abs_change_sym_table:
  "max_abs_change (sym_table a' b' c' d' e') (sym_table a b c d e) =
     max \<bar>a' - a\<bar> (max \<bar>b' - b\<bar> (max \<bar>c' - c\<bar> (max \<bar>d' - d\<bar> \<bar>e' - e\<bar>)))"
proof -
  let ?m = "max \<bar>a' - a\<bar> (max \<bar>b' - b\<bar> (max \<bar>c' - c\<bar> (max \<bar>d' - d\<bar> \<bar>e' - e\<bar>)))"
  have set: "(\<lambda>s. \<bar>value_at (sym_table a' b' c' d' e') s - value_at (sym_table a b c d e) s\<bar>) ` {0..15} =
     {0, \<bar>a' - a\<bar>, \<bar>b' - b\<bar>, \<bar>c' - c\<bar>, \<bar>d' - d\<bar>, \<bar>e' - e\<bar>}"
    unfolding states16 by (simp add: sym_table_def value_at_nth insert_commute)
  have "Max {0, \<bar>a' - a\<bar>, \<bar>b' - b\<bar>, \<bar>c' - c\<bar>, \<bar>d' - d\<bar>, \<bar>e' - e\<bar>} = ?m"
  proof (rule Max_eqI)
    show "finite {0, \<bar>a' - a\<bar>, \<bar>b' - b\<bar>, \<bar>c' - c\<bar>, \<bar>d' - d\<bar>, \<bar>e' - e\<bar>}" by simp
    show "y \<le> ?m" if "y \<in> {0, \<bar>a' - a\<bar>, \<bar>b' - b\<bar>, \<bar>c' - c\<bar>, \<bar>d' - d\<bar>, \<bar>e' - e\<bar>}" for y
      using that by (auto simp: le_max_iff_disj)
    show "?m \<in> {0, \<bar>a' - a\<bar>, \<bar>b' - b\<bar>, \<bar>c' - c\<bar>, \<bar>d' - d\<bar>, \<bar>e' - e\<bar>}"
      by (simp add: max_def)
  qed
  with set show ?thesis by (simp only: max_abs_change_def)
qed

lemma shape44_sym_table: "shape44 (sym_table a b c d e)"
  by (simp add: sym_table_def shape44_def)

lemma update_values_sym_table_pair:
  "update_values (sym_table a b c d e) =
     (sym_table ((a + d + 0 + b) / 4 - 1) ((b + e + a + c) / 4 - 1) ((c + b + b + c) / 4 - 1)
        ((a + e + a + e) / 4 - 1) ((b + d + d + b) / 4 - 1),
      max \<bar>(a + d + 0 + b) / 4 - 1 - a\<bar> (max \<bar>(b + e + a + c) / 4 - 1 - b\<bar>
        (max \<bar>(c + b + b + c) / 4 - 1 - c\<bar> (max \<bar>(a + e + a + e) / 4 - 1 - d\<bar>
          \<bar>(b + d + d + b) / 4 - 1 - e\<bar>))))"
  by (simp only: prod_eq_iff fst_conv snd_conv snd_update_values update_values_sym_table
      max_sq_err_change [OF shape44_sym_table shape44_sym_table] max_abs_change_sym_table simp_thms)

lemma zeros_sym: "zeros = sym_table 0 0 0 0 0"
  by (simp add: zeros_eq sym_table_def)

end
